theory Spec2Isabelle
  imports Main "HOL-Library.Sublist"
begin

unbundle bit_operations_syntax

section \<open>Strings and JavaScript truthiness\<close>

text \<open>
  A JavaScript string is modelled as a \<^typ>\<open>string\<close>. A value that is either a string
  or \<open>undefined\<close>/\<open>null\<close> is a \<^typ>\<open>string option\<close>; it is truthy when it is a
  non-empty string. An error object is always truthy, so an optional error is truthy
  exactly when it is present.
\<close>

type_synonym err = string

definition truthy :: "string option \<Rightarrow> bool" where
  "truthy v = (case v of None \<Rightarrow> False | Some s \<Rightarrow> s \<noteq> [])"

text \<open>\<open>a || b\<close> on optional error objects.\<close>

definition or_else :: "err option \<Rightarrow> err option \<Rightarrow> err option" where
  "or_else a b = (case a of Some e \<Rightarrow> Some e | None \<Rightarrow> b)"

text \<open>
  \<open>String.prototype.indexOf\<close>: the index of the first occurrence of \<open>ext\<close> in
  \<open>file\<close>, or \<open>-1\<close> when there is none.
\<close>

fun indexOf :: "string \<Rightarrow> string \<Rightarrow> int" where
  "indexOf [] ext = (if ext = [] then 0 else - 1)"
| "indexOf (c # cs) ext =
     (if prefix ext (c # cs) then 0
      else (let r = indexOf cs ext in if r = - 1 then - 1 else r + 1))"

section \<open>Extension normalizer\<close>

text \<open>
  \<^verbatim>\<open>
  function extension(file, ext) {
    if (!~file.indexOf(ext)) {
      file += ext;
    }
    return file;
  }
  \<close>
  \<open>~\<close> is bitwise complement, and \<open>!~i\<close> holds exactly when \<open>~i\<close> is \<open>0\<close>.
\<close>

definition extension :: "string \<Rightarrow> string \<Rightarrow> string" where
  "extension file ext = (if NOT (indexOf file ext) = 0 then file @ ext else file)"

section \<open>External collaborators\<close>

text \<open>
  The filesystem and the module-resolution algorithm are outside the program. A call of
  either is answered through a Node-style callback \<open>(error, value)\<close>; for a fixed
  filesystem state the answer is a function of the arguments. \<open>path.join\<close> is a pure
  library function and is taken as given.
\<close>

datatype stats = Stats

record env =
  path_join :: "string \<Rightarrow> string \<Rightarrow> string"
  fs_stat :: "string \<Rightarrow> err option \<times> stats option"
  module_resolve :: "string \<Rightarrow> string \<Rightarrow> err option \<times> string option"

text \<open>
  \<open>path.dirname\<close> is a function of Node's path module, not of the program; this is
  its POSIX implementation. The empty path gives \<open>.\<close>. Otherwise
  the path is scanned from its last character down to index 1: trailing slashes are
  skipped, and the scan stops at the first slash that follows a non-slash character.
  Without such a slash the result is \<open>/\<close> for a rooted path and \<open>.\<close> otherwise; with
  it, the result is the path up to that slash (\<open>//\<close> when the path is rooted and the
  slash is at index 1).
\<close>

fun dirname_scan :: "string \<Rightarrow> nat \<Rightarrow> bool \<Rightarrow> nat option" where
  "dirname_scan p 0 matchedSlash = None"
| "dirname_scan p (Suc i) matchedSlash =
     (if p ! Suc i = CHR ''/''
      then (if \<not> matchedSlash then Some (Suc i) else dirname_scan p i matchedSlash)
      else dirname_scan p i False)"

definition dirname :: "string \<Rightarrow> string" where
  "dirname p =
     (if length p = 0 then ''.''
      else (let hasRoot = (p ! 0 = CHR ''/'') in
        case dirname_scan p (length p - 1) True of
          None \<Rightarrow> (if hasRoot then ''/'' else ''.'')
        | Some end \<Rightarrow> (if hasRoot \<and> end = 1 then ''//'' else take end p)))"

section \<open>Observable events\<close>

text \<open>
  What a resolution call does to the outside world, in order: the collaborator calls it
  starts, the completion callback \<open>done\<close> it invokes, and the errors it throws.
\<close>

datatype event =
    Stat string
  | ModuleResolve string string
  | Done_file string
  | Done_empty
  | Throw string
  | TypeError

section \<open>The two resolvers\<close>

text \<open>
  \<^verbatim>\<open>
  function exists(file, done) {
    return void fs.stat(file, (error, stat) => {
      done(!error && !!stat);
    });
  }
  \<close>
\<close>

definition exists :: "env \<Rightarrow> string \<Rightarrow> event list \<times> bool" where
  "exists env file =
     (case fs_stat env file of (error, stat) \<Rightarrow>
        ([Stat file], error = None \<and> stat \<noteq> None))"

text \<open>
  \<^verbatim>\<open>
  function local(base, file, ext, next) {
    file = extension(path.join(base, file), ext);
    return void exists(file, exist => {
      next(null, exist ? file : null);
    });
  }
  \<close>
  A resolver is modelled by the events it causes and the pair \<open>(err, file)\<close> it hands
  to \<open>next\<close>.
\<close>

definition local ::
  "env \<Rightarrow> string \<Rightarrow> string \<Rightarrow> string \<Rightarrow> event list \<times> err option \<times> string option" where
  "local env base file ext =
     (let file' = extension (path_join env base file) ext in
      case exists env file' of (evs, exist) \<Rightarrow>
        (evs, None, if exist then Some file' else None))"

text \<open>
  \<^verbatim>\<open>
  function node(base, file, ext, next)  {
    return void resolve(extension(file, ext), { basedir: base }, (error, result) => {
      if (result) {
        return next(null, result);
      }
      resolve(file, { basedir: base }, next);
    });
  }
  \<close>
\<close>

definition node ::
  "env \<Rightarrow> string \<Rightarrow> string \<Rightarrow> string \<Rightarrow> event list \<times> err option \<times> string option" where
  "node env base file ext =
     (case module_resolve env (extension file ext) base of (error, result) \<Rightarrow>
        if truthy result
        then ([ModuleResolve (extension file ext) base], None, result)
        else (case module_resolve env file base of (err2, result2) \<Rightarrow>
          ([ModuleResolve (extension file ext) base, ModuleResolve file base],
           err2, result2)))"

text \<open>\<open>provide(file, done)\<close> calls \<open>done({ file })\<close>.\<close>

definition provide :: "string \<Rightarrow> event list" where
  "provide file = [Done_file file]"

section \<open>The resolution stack\<close>

text \<open>
  An entry of the stack is \<open>fn.bind(fn, base)\<close> for \<open>fn\<close> one of \<open>local\<close> and
  \<open>node\<close>: the resolver and the base directory bound to it.
\<close>

datatype resolver = Local | Node

type_synonym attempt = "resolver \<times> string"

definition call ::
  "env \<Rightarrow> attempt \<Rightarrow> string \<Rightarrow> string \<Rightarrow> event list \<times> err option \<times> string option" where
  "call env a url ext =
     (case a of
        (Local, base) \<Rightarrow> local env base url ext
      | (Node, base) \<Rightarrow> node env base url ext)"

definition not_found_message :: "string \<Rightarrow> string \<Rightarrow> string" where
  "not_found_message url prev = ''Could not find file: '' @ url @ '' from parent '' @ prev"

text \<open>
  \<^verbatim>\<open>
  (function run(stack, error) {
    function next(err, file) {
      error = error || err;
      if (file) {
        return void provide(file, done);
      }
      if (!stack.length) {
        if (error) throw new Error(`Could not find file: ${url} from parent ${prev}`);
        return void done();
      }
      return void run(stack, err, next);
    }
    stack.shift()(url, ext, next);
  })(fns);
  \<close>
  \<open>run\<close> takes the first entry off the stack and calls it with \<open>next\<close> as its
  callback; the body of \<open>next\<close> is the part after the events of that entry. \<open>error\<close>
  is the parameter of this invocation of \<open>run\<close>, and the recursive call passes \<open>err\<close>.
  On an empty stack \<open>stack.shift()\<close> is \<open>undefined\<close>, and calling it is a TypeError.
\<close>

fun run ::
  "env \<Rightarrow> string \<Rightarrow> string \<Rightarrow> string \<Rightarrow> attempt list \<Rightarrow> err option \<Rightarrow> event list" where
  "run env url prev ext [] error = [TypeError]"
| "run env url prev ext (fn # stack) error =
     (case call env fn url ext of (evs, err, file) \<Rightarrow>
        evs @
        (let error' = or_else error err in
         case (if truthy file then file else None) of
           Some f \<Rightarrow> provide f
         | None \<Rightarrow>
             if length stack = 0
             then (if error' \<noteq> None then [Throw (not_found_message url prev)]
                   else [Done_empty])
             else run env url prev ext stack err))"

section \<open>The importer\<close>

text \<open>
  \<open>this.options.includePaths\<close> as the host may supply it: absent, one string, or an
  array whose entries are strings or \<open>undefined\<close>. \<open>[].concat\<close> spreads an array
  argument and appends any other argument as one element.
\<close>

datatype include_paths = Undefined | Path string | Paths "string option list"

record options =
  includePaths :: include_paths

fun concat_arg :: "include_paths \<Rightarrow> string option list" where
  "concat_arg Undefined = [None]"
| "concat_arg (Path s) = [Some s]"
| "concat_arg (Paths ps) = ps"

text \<open>The configuration captured by the closure that \<open>importer\<close> returns.\<close>

record config =
  cfg_root :: string
  cfg_ext :: string

record importer_options =
  opt_root :: "string option"
  opt_ext :: "string option"

definition charAt :: "string \<Rightarrow> nat \<Rightarrow> string" where
  "charAt s i = (if i < length s then [s ! i] else [])"

text \<open>
  \<^verbatim>\<open>
  export function importer({ root = process.cwd(), ext = '.scss' } = {}) {
    if (ext.charAt(0) !== '.') {
      ext = '.' + ext;
    }
    return function resolve(url, prev, done) { ... }
  }
  \<close>
  \<open>cwd\<close> is the value of \<open>process.cwd()\<close> when \<open>importer\<close> is called.
\<close>

definition importer :: "string \<Rightarrow> importer_options option \<Rightarrow> config" where
  "importer cwd arg =
     (let opts = (case arg of None \<Rightarrow> \<lparr>opt_root = None, opt_ext = None\<rparr> | Some a \<Rightarrow> a);
          root = (case opt_root opts of None \<Rightarrow> cwd | Some r \<Rightarrow> r);
          ext = (case opt_ext opts of None \<Rightarrow> ''.scss'' | Some e \<Rightarrow> e);
          ext = (if charAt ext 0 \<noteq> ''.'' then ''.'' @ ext else ext)
      in \<lparr>cfg_root = root, cfg_ext = ext\<rparr>)"

text \<open>
  \<^verbatim>\<open>
  const options = this.options || {};
  const dirnamePrev = path.dirname(prev);
  const includes = [].concat(options.includePaths, dirnamePrev, root).filter(Boolean);
  \<close>
\<close>

definition includes_of :: "config \<Rightarrow> options option \<Rightarrow> string \<Rightarrow> string list" where
  "includes_of cfg this_options prev =
     (let options = (case this_options of None \<Rightarrow> \<lparr>includePaths = Undefined\<rparr> | Some opts \<Rightarrow> opts);
          dirnamePrev = dirname prev
      in List.map_filter (\<lambda>v. if truthy v then v else None)
           (concat_arg (includePaths options) @ [Some dirnamePrev] @ [Some (cfg_root cfg)]))"

text \<open>
  \<^verbatim>\<open>
  const fns = [local, node].reduce((arr, fn) => {
    return arr.concat(includes.map(base => fn.bind(fn, base)));
  }, []);
  \<close>
\<close>

definition fns :: "string list \<Rightarrow> attempt list" where
  "fns incl = foldl (\<lambda>arr fn. arr @ map (\<lambda>base. (fn, base)) incl) [] [Local, Node]"

definition resolve :: "env \<Rightarrow> config \<Rightarrow> options option \<Rightarrow> string \<Rightarrow> string \<Rightarrow> event list" where
  "resolve env cfg this_options url prev =
     run env url prev (cfg_ext cfg) (fns (includes_of cfg this_options prev)) None"

section \<open>Notions used in the statements\<close>

text \<open>The three components of what a stack entry does when it is called.\<close>

definition events_of :: "env \<Rightarrow> string \<Rightarrow> string \<Rightarrow> attempt \<Rightarrow> event list" where
  "events_of env url ext a = fst (call env a url ext)"

definition err_of :: "env \<Rightarrow> string \<Rightarrow> string \<Rightarrow> attempt \<Rightarrow> err option" where
  "err_of env url ext a = fst (snd (call env a url ext))"

definition file_of :: "env \<Rightarrow> string \<Rightarrow> string \<Rightarrow> attempt \<Rightarrow> string option" where
  "file_of env url ext a = snd (snd (call env a url ext))"

text \<open>
  The ways a resolution call can end: \<open>done({ file })\<close>, \<open>done()\<close>, or the thrown
  error. The other events are calls of a collaborator.
\<close>

fun completion :: "event \<Rightarrow> bool" where
  "completion (Done_file f) = True"
| "completion Done_empty = True"
| "completion (Throw m) = True"
| "completion e = False"

fun collaborator_call :: "event \<Rightarrow> bool" where
  "collaborator_call (Stat p) = True"
| "collaborator_call (ModuleResolve request basedir) = True"
| "collaborator_call e = False"

fun is_package_call :: "event \<Rightarrow> bool" where
  "is_package_call (ModuleResolve request basedir) = True"
| "is_package_call e = False"

text \<open>
  The include paths the host supplies, in the order it gives them: none when there are
  no options or no \<open>includePaths\<close>, otherwise the single string or the entries of the
  array.
\<close>

definition supplied_paths :: "options option \<Rightarrow> string option list" where
  "supplied_paths this_options =
     (case this_options of
        None \<Rightarrow> []
      | Some opts \<Rightarrow>
          (case includePaths opts of Undefined \<Rightarrow> [] | Path s \<Rightarrow> [Some s] | Paths ps \<Rightarrow> ps))"



section \<open>Example environments\<close>

text \<open>
  Concrete collaborators for the examples. \<open>simple_join\<close> agrees with \<open>path.join\<close> on
  the arguments the examples use (a normalized base and a single name). \<open>stat_of\<close>
  answers for a filesystem holding exactly the listed files.
\<close>

definition simple_join :: "string \<Rightarrow> string \<Rightarrow> string" where
  "simple_join base file = (if base = ''.'' then file else base @ ''/'' @ file)"

definition stat_of :: "string list \<Rightarrow> string \<Rightarrow> err option \<times> stats option" where
  "stat_of files p = (if p \<in> set files then (None, Some Stats) else (Some ''ENOENT'', None))"

definition env_scenario_A :: env where
  "env_scenario_A =
     \<lparr>path_join = simple_join,
      fs_stat = stat_of [''/proj/src/foo.scss''],
      module_resolve = (\<lambda>request basedir. (Some ''Cannot find module'', None))\<rparr>"

definition env_root_only :: env where
  "env_root_only =
     \<lparr>path_join = simple_join,
      fs_stat = stat_of [''/proj/foo.scss''],
      module_resolve = (\<lambda>request basedir. (Some ''Cannot find module'', None))\<rparr>"

definition env_packages :: env where
  "env_packages =
     \<lparr>path_join = simple_join,
      fs_stat = stat_of [],
      module_resolve = (\<lambda>request basedir.
         if request = ''theme.scss'' \<and> basedir = ''/proj''
           then (None, Some ''/proj/node_modules/theme.scss'')
         else if request = ''some-lib'' \<and> basedir = ''/proj''
           then (None, Some ''/proj/node_modules/some-lib/index.scss'')
         else (Some ''Cannot find module'', None))\<rparr>"


section \<open>Properties of the extension normalizer\<close>

lemma indexOf_ge: "- 1 \<le> indexOf s e"
  by (induction s) (auto simp: Let_def)

lemma indexOf_sublist: "indexOf s e = - 1 \<longleftrightarrow> \<not> sublist e s"
proof (induction s)
  case Nil
  show ?case by simp
next
  case (Cons c cs)
  have ge: "- 1 \<le> indexOf cs e" by (rule indexOf_ge)
  show ?case
  proof (cases "prefix e (c # cs)")
    case True
    then show ?thesis by (auto simp: sublist_Cons_right)
  next
    case False
    with Cons ge show ?thesis by (auto simp: Let_def sublist_Cons_right)
  qed
qed

lemma extension_sublist:
  "extension s e = (if sublist e s then s else s @ e)"
proof -
  have "NOT (indexOf s e) = 0 \<longleftrightarrow> indexOf s e = - 1"
    by (simp add: not_int_def)
  then show ?thesis by (simp add: extension_def indexOf_sublist)
qed

lemma extension_examples:
  "extension ''foo'' ''.scss'' = ''foo.scss''"
  "extension ''bar'' ''.scss'' = ''bar.scss''"
  "extension ''theme'' ''.scss'' = ''theme.scss''"
  "extension ''some-lib'' ''.scss'' = ''some-lib.scss''"
  "extension ''missing'' ''.scss'' = ''missing.scss''"
  "extension ''/proj/src/foo'' ''.scss'' = ''/proj/src/foo.scss''"
  "extension ''/proj/foo'' ''.scss'' = ''/proj/foo.scss''"
  "extension ''/a/bar'' ''.scss'' = ''/a/bar.scss''"
  "extension ''/proj/src/bar'' ''.scss'' = ''/proj/src/bar.scss''"
  "extension ''/proj/bar'' ''.scss'' = ''/proj/bar.scss''"
  by (simp_all add: extension_sublist sublist_code)

text \<open>
  C7: the extension normalizer returns the string unchanged when the extension occurs
  anywhere in it as a substring (not only as a suffix), and otherwise returns the
  string with the extension appended at the end. It is a total function of its two
  arguments: the result is always one of these two strings.
\<close>

theorem extension_substring_rule:
  "extension s e = (if (\<exists>u v. s = u @ e @ v) then s else s @ e)"
  by (simp add: extension_sublist sublist_def)

theorem extension_substring_rule_witness:
  "extension ''lib.scss/main'' ''.scss'' = ''lib.scss/main''"
proof -
  have h: "\<exists>u v. ''lib.scss/main'' = u @ ''.scss'' @ v"
    by (intro exI[of _ "''lib''"] exI[of _ "''/main''"]) simp
  have "extension ''lib.scss/main'' ''.scss'' =
      (if (\<exists>u v. ''lib.scss/main'' = u @ ''.scss'' @ v) then ''lib.scss/main''
       else ''lib.scss/main'' @ ''.scss'')"
    by (rule extension_substring_rule)
  also from h have "\<dots> = ''lib.scss/main''" by (rule if_P)
  finally show ?thesis .
qed

text \<open>
  C8: extension normalization is idempotent: normalizing the result of a normalization
  again gives the same string.
\<close>

theorem extension_idempotent:
  "extension (extension s e) e = extension s e"
  by (simp add: extension_sublist)

theorem extension_idempotent_witness:
  "extension ''foo.scss'' ''.scss'' = ''foo.scss''"
  using extension_idempotent[of "''foo''" "''.scss''"]
  by (simp add: extension_examples)

section \<open>The resolvers\<close>

lemma truthy_simps: "truthy None = False" "truthy (Some s) = (s \<noteq> [])"
  by (simp_all add: truthy_def)

lemma local_eq:
  "local env base file ext =
     ([Stat (extension (path_join env base file) ext)], None,
      if fst (fs_stat env (extension (path_join env base file) ext)) = None \<and>
         snd (fs_stat env (extension (path_join env base file) ext)) \<noteq> None
      then Some (extension (path_join env base file) ext) else None)"
  by (simp add: local_def exists_def Let_def split: prod.splits)

lemma node_eq:
  "node env base file ext =
     (if truthy (snd (module_resolve env (extension file ext) base))
      then ([ModuleResolve (extension file ext) base], None,
            snd (module_resolve env (extension file ext) base))
      else ([ModuleResolve (extension file ext) base, ModuleResolve file base],
            module_resolve env file base))"
  by (simp add: node_def split: prod.splits)

text \<open>
  C3: the package resolver first calls module resolution with the extension-normalized
  specifier and the base. When that gives a result, it is returned with no error and
  nothing else is called. Only when it gives no result is module resolution called a
  second time, with the original specifier and the same base, and what that call
  answers is handed on: its result when it has one, and otherwise "not found" together
  with the error of this second call.
\<close>

theorem node_extended_then_bare:
  "(\<exists>rest. fst (node env base file ext) = ModuleResolve (extension file ext) base # rest) \<and>
   (truthy (snd (module_resolve env (extension file ext) base)) \<longrightarrow>
      node env base file ext =
        ([ModuleResolve (extension file ext) base], None,
         snd (module_resolve env (extension file ext) base))) \<and>
   (\<not> truthy (snd (module_resolve env (extension file ext) base)) \<longrightarrow>
      fst (node env base file ext) =
        [ModuleResolve (extension file ext) base, ModuleResolve file base] \<and>
      snd (node env base file ext) = module_resolve env file base) \<and>
   (\<not> truthy (snd (module_resolve env (extension file ext) base)) \<and>
    \<not> truthy (snd (module_resolve env file base)) \<longrightarrow>
      \<not> truthy (snd (snd (node env base file ext))) \<and>
      fst (snd (node env base file ext)) = fst (module_resolve env file base))"
  by (simp add: node_eq)

theorem node_extended_then_bare_witness:
  "node env_packages ''/proj'' ''theme'' ''.scss'' =
     ([ModuleResolve ''theme.scss'' ''/proj''], None, Some ''/proj/node_modules/theme.scss'') \<and>
   node env_packages ''/proj'' ''some-lib'' ''.scss'' =
     ([ModuleResolve ''some-lib.scss'' ''/proj'', ModuleResolve ''some-lib'' ''/proj''],
      None, Some ''/proj/node_modules/some-lib/index.scss'') \<and>
   node env_packages ''/proj'' ''missing'' ''.scss'' =
     ([ModuleResolve ''missing.scss'' ''/proj'', ModuleResolve ''missing'' ''/proj''],
      Some ''Cannot find module'', None)"
proof -
  have m:
    "module_resolve env_packages ''theme.scss'' ''/proj'' =
       (None, Some ''/proj/node_modules/theme.scss'')"
    "module_resolve env_packages ''some-lib.scss'' ''/proj'' = (Some ''Cannot find module'', None)"
    "module_resolve env_packages ''some-lib'' ''/proj'' =
       (None, Some ''/proj/node_modules/some-lib/index.scss'')"
    "module_resolve env_packages ''missing.scss'' ''/proj'' = (Some ''Cannot find module'', None)"
    "module_resolve env_packages ''missing'' ''/proj'' = (Some ''Cannot find module'', None)"
    by (simp_all add: env_packages_def)
  show ?thesis
    using node_extended_then_bare[of env_packages "''/proj''" "''theme''" "''.scss''"]
      node_extended_then_bare[of env_packages "''/proj''" "''some-lib''" "''.scss''"]
      node_extended_then_bare[of env_packages "''/proj''" "''missing''" "''.scss''"]
    by (simp add: m truthy_simps prod_eq_iff extension_examples)
qed




section \<open>The importer's configuration and base directories\<close>

text \<open>
  C9: without options the importer's root is the current working directory and its
  extension is \<open>.scss\<close>; either default also applies when only that option is
  missing. A supplied extension is kept when it starts with a dot and otherwise gets
  one in front, so the configured extension always starts with a dot. The returned
  configuration is a value: a resolution call reads it and cannot change it.
\<close>

theorem importer_configuration:
  "importer cwd None = \<lparr>cfg_root = cwd, cfg_ext = ''.scss''\<rparr> \<and>
   importer cwd (Some \<lparr>opt_root = None, opt_ext = None\<rparr>) =
     \<lparr>cfg_root = cwd, cfg_ext = ''.scss''\<rparr> \<and>
   cfg_root (importer cwd (Some \<lparr>opt_root = None, opt_ext = e\<rparr>)) = cwd \<and>
   cfg_root (importer cwd (Some \<lparr>opt_root = Some r, opt_ext = e\<rparr>)) = r \<and>
   cfg_ext (importer cwd (Some \<lparr>opt_root = ro, opt_ext = None\<rparr>)) = ''.scss'' \<and>
   cfg_ext (importer cwd (Some \<lparr>opt_root = ro, opt_ext = Some x\<rparr>)) =
     (if prefix ''.'' x then x else ''.'' @ x) \<and>
   prefix ''.'' (cfg_ext (importer cwd arg))"
proof -
  have c: "charAt x 0 \<noteq> ''.'' \<longleftrightarrow> \<not> prefix ''.'' x" for x
    by (cases x) (auto simp: charAt_def)
  show ?thesis
    by (cases arg) (simp_all add: importer_def c Let_def split: option.splits)
qed

theorem importer_configuration_witness:
  "importer ''/proj'' (Some \<lparr>opt_root = None, opt_ext = Some ''sass''\<rparr>) =
     \<lparr>cfg_root = ''/proj'', cfg_ext = ''.sass''\<rparr> \<and>
   importer ''/proj'' (Some \<lparr>opt_root = Some ''/other'', opt_ext = Some ''.sass''\<rparr>) =
     \<lparr>cfg_root = ''/other'', cfg_ext = ''.sass''\<rparr>"
  using importer_configuration[of "''/proj''" "Some ''sass''" "''/other''" None "''sass''" None]
    importer_configuration[of "''/proj''" "Some ''.sass''" "''/other''" "Some ''/other''"
      "''.sass''" None]
  by (simp add: config.equality)

lemma importer_default: "importer cwd None = \<lparr>cfg_root = cwd, cfg_ext = ''.scss''\<rparr>"
  by (simp add: importer_def charAt_def)

lemma dirname_scan_bounds: "dirname_scan p i m = Some e \<Longrightarrow> 1 \<le> e \<and> e \<le> i"
  by (induction p i m rule: dirname_scan.induct) (auto split: if_splits)

lemma dirname_nonempty: "dirname p \<noteq> []"
proof (cases "dirname_scan p (length p - 1) True")
  case None
  then show ?thesis by (simp add: dirname_def Let_def)
next
  case (Some e)
  from dirname_scan_bounds[OF Some] have "1 \<le> e" "e \<le> length p - 1" by simp_all
  with Some show ?thesis by (auto simp: dirname_def Let_def)
qed

lemma dirname_examples:
  "dirname ''/proj/src/main.scss'' = ''/proj/src''"
  "dirname ''stdin'' = ''.''"
  by code_simp+

lemma map_filter_app:
  "List.map_filter f (xs @ ys) = List.map_filter f xs @ List.map_filter f ys"
  by (simp add: List.map_filter_def)

lemma truthy_filter:
  "List.map_filter (\<lambda>v. if truthy v then v else None) xs =
     filter (\<lambda>p. p \<noteq> []) (List.map_filter id xs)"
  by (induction xs) (auto simp: map_filter_simps truthy_simps split: option.splits)

lemma includes_of_eq:
  "includes_of cfg this_options prev =
     filter (\<lambda>p. p \<noteq> []) (List.map_filter id (supplied_paths this_options)) @
       dirname prev # filter (\<lambda>p. p \<noteq> []) [cfg_root cfg]"
proof -
  have "List.map_filter (\<lambda>v. if truthy v then v else None)
          (concat_arg (includePaths
             (case this_options of None \<Rightarrow> \<lparr>includePaths = Undefined\<rparr> | Some opts \<Rightarrow> opts))) =
        filter (\<lambda>p. p \<noteq> []) (List.map_filter id (supplied_paths this_options))"
    by (simp add: supplied_paths_def truthy_filter map_filter_simps truthy_simps
        split: option.splits include_paths.splits)
  then show ?thesis
    by (simp add: includes_of_def Let_def map_filter_app map_filter_simps truthy_simps
        dirname_nonempty)
qed

lemma includes_of_nonempty: "includes_of cfg this_options prev \<noteq> []"
  by (simp add: includes_of_eq)

lemma includes_proj:
  "includes_of \<lparr>cfg_root = ''/proj'', cfg_ext = ''.scss''\<rparr> None ''/proj/src/main.scss'' =
     [''/proj/src'', ''/proj'']"
  by (simp add: includes_of_eq dirname_examples supplied_paths_def map_filter_simps)

text \<open>
  C5: the base-directory list is the host-supplied include paths in their given order,
  then the directory of the previously resolved file, then the configured root, with
  the undefined and the empty entries removed. The remaining entries keep their
  relative order: the list is a filter of that sequence.
\<close>

theorem includes_order:
  "includes_of cfg this_options prev =
     filter (\<lambda>p. p \<noteq> [])
       (List.map_filter id (supplied_paths this_options) @ [dirname prev, cfg_root cfg])"
  by (simp add: includes_of_eq dirname_nonempty)

theorem includes_order_witness:
  "includes_of (importer ''/proj'' None)
       (Some \<lparr>includePaths = Paths [Some ''/inc'', None, Some [], Some ''/lib'']\<rparr>)
       ''/proj/src/main.scss'' =
     [''/inc'', ''/lib'', ''/proj/src'', ''/proj'']"
  using includes_order[of "importer ''/proj'' None"
      "Some \<lparr>includePaths = Paths [Some ''/inc'', None, Some [], Some ''/lib'']\<rparr>"
      "''/proj/src/main.scss''"]
  by (simp add: importer_default dirname_examples supplied_paths_def map_filter_simps)

section \<open>The resolution pipeline\<close>

lemma call_split:
  "call env a url ext = (events_of env url ext a, err_of env url ext a, file_of env url ext a)"
  by (simp add: events_of_def err_of_def file_of_def)

lemma run_Cons:
  "run env url prev ext (a # stack) error =
     events_of env url ext a @
       (if truthy (file_of env url ext a) then provide (the (file_of env url ext a))
        else if stack = []
          then (if or_else error (err_of env url ext a) \<noteq> None
                then [Throw (not_found_message url prev)] else [Done_empty])
          else run env url prev ext stack (err_of env url ext a))"
  by (auto simp: call_split truthy_def split: option.splits)

declare run.simps(2) [simp del]

lemma events_of_Local:
  "events_of env url ext (Local, base) = [Stat (extension (path_join env base url) ext)]"
  by (simp add: events_of_def call_def local_eq)

lemma events_of_Node:
  "events_of env url ext (Node, base) =
     (if truthy (snd (module_resolve env (extension url ext) base))
      then [ModuleResolve (extension url ext) base]
      else [ModuleResolve (extension url ext) base, ModuleResolve url base])"
  by (simp add: events_of_def call_def node_eq)

lemma events_of_collab: "e \<in> set (events_of env url ext a) \<Longrightarrow> collaborator_call e"
proof (cases a)
  case (Pair r base)
  assume "e \<in> set (events_of env url ext a)"
  with Pair show ?thesis
    by (cases r) (auto simp: events_of_Local events_of_Node split: if_splits)
qed

lemma collaborator_not_completion:
  "collaborator_call e \<Longrightarrow> \<not> completion e \<and> e \<noteq> TypeError"
  by (cases e) simp_all

lemma fns_eq: "fns incl = map (Pair Local) incl @ map (Pair Node) incl"
  by (simp add: fns_def)

text \<open>Entries that find nothing are passed over; only the last one's error travels on.\<close>

lemma run_skip:
  "\<forall>b\<in>set before. \<not> truthy (file_of env url ext b) \<Longrightarrow> before \<noteq> [] \<Longrightarrow> rest \<noteq> [] \<Longrightarrow>
   run env url prev ext (before @ rest) error =
     concat (map (events_of env url ext) before) @
       run env url prev ext rest (err_of env url ext (last before))"
proof (induction before arbitrary: error)
  case Nil
  then show ?case by simp
next
  case (Cons b bs)
  show ?case
  proof (cases "bs = []")
    case True
    with Cons.prems show ?thesis by (simp add: run_Cons)
  next
    case False
    with Cons show ?thesis by (simp add: run_Cons)
  qed
qed

lemma run_found:
  assumes "\<forall>b\<in>set before. \<not> truthy (file_of env url ext b)"
    and "file_of env url ext a = Some f" and "f \<noteq> []"
  shows "run env url prev ext (before @ a # after) error =
     concat (map (events_of env url ext) (before @ [a])) @ [Done_file f]"
proof (cases "before = []")
  case True
  with assms show ?thesis by (simp add: run_Cons truthy_def provide_def)
next
  case False
  with assms run_skip[of before env url ext "a # after" prev error]
  show ?thesis by (simp add: run_Cons truthy_def provide_def)
qed



lemma run_completes:
  "stack \<noteq> [] \<Longrightarrow>
   \<exists>pre t. run env url prev ext stack error = pre @ [t] \<and> completion t \<and>
     (\<forall>e\<in>set pre. collaborator_call e)"
proof (induction stack arbitrary: error)
  case Nil
  then show ?case by simp
next
  case (Cons a stack)
  let ?evs = "events_of env url ext a"
  have evs: "\<forall>e\<in>set ?evs. collaborator_call e"
    using events_of_collab by blast
  show ?case
  proof (cases "truthy (file_of env url ext a)")
    case True
    then have "run env url prev ext (a # stack) error =
        ?evs @ [Done_file (the (file_of env url ext a))]"
      by (simp add: run_Cons provide_def)
    with evs show ?thesis by fastforce
  next
    case False
    show ?thesis
    proof (cases "stack = []")
      case True
      with False have "run env url prev ext (a # stack) error =
          ?evs @ [if or_else error (err_of env url ext a) \<noteq> None
                  then Throw (not_found_message url prev) else Done_empty]"
        by (simp add: run_Cons)
      moreover have "completion (if or_else error (err_of env url ext a) \<noteq> None
                  then Throw (not_found_message url prev) else Done_empty)"
        by simp
      ultimately show ?thesis using evs by blast
    next
      case ne: False
      from Cons.IH[OF ne, of "err_of env url ext a"] obtain pre t where
        r: "run env url prev ext stack (err_of env url ext a) = pre @ [t]"
        and t: "completion t" and pre: "\<forall>e\<in>set pre. collaborator_call e"
        by blast
      from False ne r have "run env url prev ext (a # stack) error = (?evs @ pre) @ [t]"
        by (simp add: run_Cons)
      moreover from evs pre have "\<forall>e\<in>set (?evs @ pre). collaborator_call e" by auto
      ultimately show ?thesis using t by blast
    qed
  qed
qed

text \<open>
  C1: the attempt list is a local attempt for each include path in order, followed by a
  package attempt for each include path in order. The attempts run one after another
  in that order: when every attempt before some attempt finds nothing and that attempt
  produces a file, the call consists of the collaborator calls of exactly these
  attempts, in order, followed by \<open>done({ file })\<close> with that file, and nothing of any
  later attempt.
\<close>

theorem attempts_in_order_first_success_wins:
  "fns (includes_of cfg this_options prev) =
     map (Pair Local) (includes_of cfg this_options prev) @
     map (Pair Node) (includes_of cfg this_options prev) \<and>
   (fns (includes_of cfg this_options prev) = before @ a # after \<and>
    (\<forall>b\<in>set before. \<not> truthy (file_of env url (cfg_ext cfg) b)) \<and>
    file_of env url (cfg_ext cfg) a = Some f \<and> f \<noteq> [] \<longrightarrow>
    resolve env cfg this_options url prev =
      concat (map (events_of env url (cfg_ext cfg)) (before @ [a])) @ [Done_file f])"
proof (intro conjI impI)
  show "fns (includes_of cfg this_options prev) =
     map (Pair Local) (includes_of cfg this_options prev) @
     map (Pair Node) (includes_of cfg this_options prev)"
    by (rule fns_eq)
next
  assume h: "fns (includes_of cfg this_options prev) = before @ a # after \<and>
    (\<forall>b\<in>set before. \<not> truthy (file_of env url (cfg_ext cfg) b)) \<and>
    file_of env url (cfg_ext cfg) a = Some f \<and> f \<noteq> []"
  then have "resolve env cfg this_options url prev =
      run env url prev (cfg_ext cfg) (before @ a # after) None"
    by (simp add: resolve_def)
  also from h have "\<dots> =
      concat (map (events_of env url (cfg_ext cfg)) (before @ [a])) @ [Done_file f]"
    by (intro run_found) simp_all
  finally show "resolve env cfg this_options url prev =
      concat (map (events_of env url (cfg_ext cfg)) (before @ [a])) @ [Done_file f]" .
qed

theorem attempts_in_order_first_success_wins_witness:
  "fns (includes_of (importer ''/proj'' None) None ''/proj/src/main.scss'') =
     [(Local, ''/proj/src'')] @ (Local, ''/proj'') # [(Node, ''/proj/src''), (Node, ''/proj'')] \<and>
   \<not> truthy (file_of env_root_only ''foo'' ''.scss'' (Local, ''/proj/src'')) \<and>
   file_of env_root_only ''foo'' ''.scss'' (Local, ''/proj'') = Some ''/proj/foo.scss'' \<and>
   resolve env_root_only (importer ''/proj'' None) None ''foo'' ''/proj/src/main.scss'' =
     [Stat ''/proj/src/foo.scss'', Stat ''/proj/foo.scss'', Done_file ''/proj/foo.scss'']"
proof -
  let ?cfg = "importer ''/proj'' None"
  have l: "fns (includes_of ?cfg None ''/proj/src/main.scss'') =
     [(Local, ''/proj/src'')] @ (Local, ''/proj'') # [(Node, ''/proj/src''), (Node, ''/proj'')]"
    by (simp add: importer_default includes_proj fns_eq)
  have e: "cfg_ext ?cfg = ''.scss''" by (simp add: importer_default)
  have b: "\<not> truthy (file_of env_root_only ''foo'' ''.scss'' (Local, ''/proj/src''))"
    by (simp add: file_of_def call_def local_eq env_root_only_def simple_join_def
        stat_of_def truthy_simps extension_examples)
  have a: "file_of env_root_only ''foo'' ''.scss'' (Local, ''/proj'') = Some ''/proj/foo.scss''"
    by (simp add: file_of_def call_def local_eq env_root_only_def simple_join_def
        stat_of_def extension_examples)
  have ev:
    "events_of env_root_only ''foo'' ''.scss'' (Local, ''/proj/src'') =
       [Stat ''/proj/src/foo.scss'']"
    "events_of env_root_only ''foo'' ''.scss'' (Local, ''/proj'') = [Stat ''/proj/foo.scss'']"
    by (simp_all add: events_of_Local env_root_only_def simple_join_def extension_examples)
  from attempts_in_order_first_success_wins[of ?cfg None "''/proj/src/main.scss''"
      "[(Local, ''/proj/src'')]" "(Local, ''/proj'')" "[(Node, ''/proj/src''), (Node, ''/proj'')]"
      env_root_only "''foo''" "''/proj/foo.scss''"] l e a b
  have "resolve env_root_only ?cfg None ''foo'' ''/proj/src/main.scss'' =
     [Stat ''/proj/src/foo.scss'', Stat ''/proj/foo.scss'', Done_file ''/proj/foo.scss'']"
    by (simp add: ev)
  with l a b show ?thesis by simp
qed







text \<open>
  C4: every resolution call ends in exactly one of \<open>done({ file })\<close>, \<open>done()\<close> and the
  thrown error. That event is the last thing the call does, no second one occurs
  before it, and the call never fails on an empty stack.
\<close>

theorem completion_exactly_once:
  "length (filter completion (resolve env cfg this_options url prev)) = 1 \<and>
   completion (last (resolve env cfg this_options url prev)) \<and>
   TypeError \<notin> set (resolve env cfg this_options url prev)"
proof -
  have "fns (includes_of cfg this_options prev) \<noteq> []"
    by (simp add: fns_eq includes_of_nonempty)
  from run_completes[OF this] obtain pre t where
    r: "resolve env cfg this_options url prev = pre @ [t]"
    and t: "completion t" and pre: "\<forall>e\<in>set pre. collaborator_call e"
    unfolding resolve_def by blast
  from pre have "filter completion pre = []" "TypeError \<notin> set pre"
    using collaborator_not_completion by (auto simp: filter_empty_conv)
  moreover from t have "t \<noteq> TypeError" by auto
  ultimately show ?thesis using r t by simp
qed

theorem completion_exactly_once_witness:
  "length (filter completion
     (resolve env_packages (importer ''/proj'' None) None ''some-lib'' ''/proj/src/main.scss'')) = 1 \<and>
   completion (last
     (resolve env_packages (importer ''/proj'' None) None ''some-lib'' ''/proj/src/main.scss'')) \<and>
   TypeError \<notin> set
     (resolve env_packages (importer ''/proj'' None) None ''some-lib'' ''/proj/src/main.scss'')"
  by (rule completion_exactly_once)

text \<open>
  When some local attempt produces a file, the call ends in the local phase: it makes
  no module-resolution call.
\<close>

lemma local_hit_stays_local:
  assumes "\<exists>b\<in>set incl. truthy (file_of env url ext (Local, b))"
  shows "\<not> list_ex is_package_call (run env url prev ext (fns incl) error)"
proof -
  from split_list_first_prop[OF assms] obtain pre b post where incl: "incl = pre @ b # post"
    and hit: "truthy (file_of env url ext (Local, b))"
    and miss: "\<forall>c\<in>set pre. \<not> truthy (file_of env url ext (Local, c))"
    by blast
  from hit obtain f where f: "file_of env url ext (Local, b) = Some f" "f \<noteq> []"
    by (cases "file_of env url ext (Local, b)") (simp_all add: truthy_simps)
  have s: "fns incl = map (Pair Local) pre @ (Local, b) # (map (Pair Local) post @ map (Pair Node) incl)"
    by (simp add: fns_eq incl)
  from miss have "\<forall>a\<in>set (map (Pair Local) pre). \<not> truthy (file_of env url ext a)"
    by auto
  from run_found[OF this f, of prev "map (Pair Local) post @ map (Pair Node) incl" error]
  have "run env url prev ext (fns incl) error =
      concat (map (events_of env url ext) (map (Pair Local) pre @ [(Local, b)])) @ [Done_file f]"
    by (simp only: s)
  then show ?thesis
    by (auto simp: list_ex_iff events_of_Local)
qed

text \<open>
  C10, as the code has it: the directory of the previously resolved file is never the
  empty string and survives the filter, whatever the root and the supplied include
  paths are, so the base-directory list is never empty and the attempt list holds a
  local and a package attempt for that directory. The first local attempt always
  runs. A package attempt runs when no local attempt produces a file; when a local
  attempt does, the call ends there and no package attempt runs.
\<close>

theorem base_directories_never_empty:
  "dirname prev \<noteq> [] \<and>
   dirname prev \<in> set (includes_of cfg this_options prev) \<and>
   (Local, dirname prev) \<in> set (fns (includes_of cfg this_options prev)) \<and>
   (Node, dirname prev) \<in> set (fns (includes_of cfg this_options prev)) \<and>
   (\<exists>p rest. resolve env cfg this_options url prev = Stat p # rest) \<and>
   ((\<forall>b\<in>set (includes_of cfg this_options prev).
        \<not> truthy (file_of env url (cfg_ext cfg) (Local, b))) \<longrightarrow>
      list_ex is_package_call (resolve env cfg this_options url prev)) \<and>
   ((\<exists>b\<in>set (includes_of cfg this_options prev).
        truthy (file_of env url (cfg_ext cfg) (Local, b))) \<longrightarrow>
      \<not> list_ex is_package_call (resolve env cfg this_options url prev))"
proof -
  let ?incl = "includes_of cfg this_options prev"
  let ?ext = "cfg_ext cfg"
  have d: "dirname prev \<noteq> []" by (rule dirname_nonempty)
  have m: "dirname prev \<in> set ?incl" by (simp add: includes_of_eq)
  then obtain i0 rest0 where incl: "?incl = i0 # rest0" by (cases ?incl) auto
  have first: "\<exists>p rest. resolve env cfg this_options url prev = Stat p # rest"
    by (simp add: resolve_def fns_eq incl run_Cons events_of_Local)
  have pkg: "list_ex is_package_call (resolve env cfg this_options url prev)"
    if nf: "\<forall>b\<in>set ?incl. \<not> truthy (file_of env url ?ext (Local, b))"
  proof -
    from nf have "\<forall>a\<in>set (map (Pair Local) ?incl). \<not> truthy (file_of env url ?ext a)"
      by auto
    moreover have "map (Pair Local) ?incl \<noteq> []" "map (Pair Node) ?incl \<noteq> []"
      by (simp_all add: incl)
    ultimately have "resolve env cfg this_options url prev =
        concat (map (events_of env url ?ext) (map (Pair Local) ?incl)) @
        run env url prev ?ext (map (Pair Node) ?incl)
          (err_of env url ?ext (last (map (Pair Local) ?incl)))"
      unfolding resolve_def fns_eq by (rule run_skip)
    moreover have "list_ex is_package_call
        (run env url prev ?ext (map (Pair Node) ?incl) e)" for e
      by (simp add: incl run_Cons events_of_Node)
    ultimately show ?thesis by (auto simp: list_ex_iff)
  qed
  have nopkg: "\<not> list_ex is_package_call (resolve env cfg this_options url prev)"
    if "\<exists>b\<in>set ?incl. truthy (file_of env url ?ext (Local, b))"
    unfolding resolve_def using that by (rule local_hit_stays_local)
  from d m first pkg nopkg show ?thesis by (auto simp: fns_eq)
qed

theorem base_directories_never_empty_witness:
  "includes_of \<lparr>cfg_root = [], cfg_ext = ''.scss''\<rparr>
       (Some \<lparr>includePaths = Paths [Some [], None]\<rparr>) ''stdin'' = [''.''] \<and>
   resolve env_packages \<lparr>cfg_root = [], cfg_ext = ''.scss''\<rparr>
       (Some \<lparr>includePaths = Paths [Some [], None]\<rparr>) ''missing'' ''stdin'' =
     [Stat ''missing.scss'', ModuleResolve ''missing.scss'' ''.'', ModuleResolve ''missing'' ''.'',
      Throw ''Could not find file: missing from parent stdin''] \<and>
   list_ex is_package_call
     (resolve env_packages \<lparr>cfg_root = [], cfg_ext = ''.scss''\<rparr>
       (Some \<lparr>includePaths = Paths [Some [], None]\<rparr>) ''missing'' ''stdin'') \<and>
   truthy (file_of env_root_only ''foo'' ''.scss'' (Local, ''/proj'')) \<and>
   \<not> list_ex is_package_call
     (resolve env_root_only \<lparr>cfg_root = ''/proj'', cfg_ext = ''.scss''\<rparr> None
        ''foo'' ''/proj/src/main.scss'')"
proof -
  let ?cfg = "\<lparr>cfg_root = [], cfg_ext = ''.scss''\<rparr>"
  let ?opts = "Some \<lparr>includePaths = Paths [Some [], None]\<rparr>"
  let ?cfg2 = "\<lparr>cfg_root = ''/proj'', cfg_ext = ''.scss''\<rparr>"
  have i: "includes_of ?cfg ?opts ''stdin'' = [''.'']"
    by (simp add: includes_of_eq dirname_examples supplied_paths_def map_filter_simps)
  have c: "call env_packages (Local, ''.'') ''missing'' ''.scss'' =
       ([Stat ''missing.scss''], None, None)"
    "call env_packages (Node, ''.'') ''missing'' ''.scss'' =
       ([ModuleResolve ''missing.scss'' ''.'', ModuleResolve ''missing'' ''.''],
        Some ''Cannot find module'', None)"
    by (simp_all add: call_def local_eq node_eq env_packages_def simple_join_def
        stat_of_def truthy_simps extension_examples)
  have r: "resolve env_packages ?cfg ?opts ''missing'' ''stdin'' =
     [Stat ''missing.scss'', ModuleResolve ''missing.scss'' ''.'', ModuleResolve ''missing'' ''.'',
      Throw ''Could not find file: missing from parent stdin'']"
    by (simp add: resolve_def i fns_eq run.simps(2) c truthy_simps or_else_def
        not_found_message_def)
  have nf: "\<forall>b\<in>set (includes_of ?cfg ?opts ''stdin'').
        \<not> truthy (file_of env_packages ''missing'' (cfg_ext ?cfg) (Local, b))"
    by (simp add: i file_of_def c truthy_simps)
  from base_directories_never_empty[of "''stdin''" ?cfg ?opts env_packages "''missing''"] nf
  have p: "list_ex is_package_call (resolve env_packages ?cfg ?opts ''missing'' ''stdin'')"
    by blast
  have h: "truthy (file_of env_root_only ''foo'' ''.scss'' (Local, ''/proj''))"
    by (simp add: file_of_def call_def local_eq env_root_only_def simple_join_def
        stat_of_def extension_examples truthy_simps)
  then have "\<exists>b\<in>set (includes_of ?cfg2 None ''/proj/src/main.scss'').
        truthy (file_of env_root_only ''foo'' (cfg_ext ?cfg2) (Local, b))"
    by (simp add: includes_proj)
  with base_directories_never_empty[of "''/proj/src/main.scss''" ?cfg2 None env_root_only "''foo''"]
  have q: "\<not> list_ex is_package_call
     (resolve env_root_only ?cfg2 None ''foo'' ''/proj/src/main.scss'')"
    by blast
  from i r p h q show ?thesis by simp
qed

text \<open>
  The claim C10 as stated also has every call run a package attempt. In Scenario A the
  first local attempt finds the file, and the call ends without one.
\<close>

theorem local_success_runs_no_package_attempt:
  "includes_of (importer ''/proj'' None) None ''/proj/src/main.scss'' =
     [''/proj/src'', ''/proj''] \<and>
   resolve env_scenario_A (importer ''/proj'' None) None ''foo'' ''/proj/src/main.scss'' =
     [Stat ''/proj/src/foo.scss'', Done_file ''/proj/src/foo.scss''] \<and>
   \<not> list_ex is_package_call
       (resolve env_scenario_A (importer ''/proj'' None) None ''foo'' ''/proj/src/main.scss'')"
proof -
  have c: "call env_scenario_A (Local, ''/proj/src'') ''foo'' ''.scss'' =
      ([Stat ''/proj/src/foo.scss''], None, Some ''/proj/src/foo.scss'')"
    by (simp add: call_def local_eq env_scenario_A_def simple_join_def stat_of_def
        extension_examples)
  have "resolve env_scenario_A (importer ''/proj'' None) None ''foo'' ''/proj/src/main.scss'' =
     [Stat ''/proj/src/foo.scss'', Done_file ''/proj/src/foo.scss'']"
    by (simp add: resolve_def importer_default includes_proj fns_eq run.simps(2) c truthy_simps
        provide_def)
  then show ?thesis by (simp add: importer_default includes_proj)
qed

end
